theory Spec2Isabelle
  imports Main
begin

section \<open>Category documents\<close>

text \<open>
  The category model (\<^verbatim>\<open>CategorySchema\<close>) as a record, one field per schema path.
  \<^verbatim>\<open>_id\<close> is \<open>cid\<close>; the virtual \<^verbatim>\<open>id\<close> is its hexadecimal string, so both are
  the same value here. Object ids are strings, compared as the canonical strings that
  \<^verbatim>\<open>toHexString\<close> returns. \<^verbatim>\<open>resourceCount\<close> is a JavaScript \<^verbatim>\<open>Number\<close>: an
  integer that the schema does not bound from below. Time stamps are natural numbers
  (milliseconds); every reading of \<^verbatim>\<open>Date.now()\<close> made while one request is served
  is the value \<open>now\<close> that the request is given.
\<close>

type_synonym oid = string

record category =
  cid :: oid
  name :: string
  description :: "string option"
  slug :: string
  parent :: "oid option"
  ancestors :: "oid list"
  resourceCount :: int
  isActive :: bool
  createdBy :: oid
  createdAt :: nat
  updatedAt :: nat

subsection \<open>String helpers of the schema and the controller\<close>

text \<open>
  \<^verbatim>\<open>String.prototype.trim\<close>, \<^verbatim>\<open>toLowerCase\<close> and the two regular-expression
  replacements of the pre-save hook, on ASCII text (a \<open>char\<close> is a byte).
\<close>

definition isSpace :: "char \<Rightarrow> bool" where
  "isSpace c = (c \<in> set [CHR 0x09, CHR 0x0A, CHR 0x0B, CHR 0x0C, CHR 0x0D, CHR 0x20])"

definition trim :: "string \<Rightarrow> string" where
  "trim t = rev (dropWhile isSpace (rev (dropWhile isSpace t)))"

definition toLowerCase_char :: "char \<Rightarrow> char" where
  "toLowerCase_char c =
     (case map_of (zip ''ABCDEFGHIJKLMNOPQRSTUVWXYZ'' ''abcdefghijklmnopqrstuvwxyz'') c of
        None \<Rightarrow> c
      | Some l \<Rightarrow> l)"

definition toLowerCase :: "string \<Rightarrow> string" where
  "toLowerCase t = map toLowerCase_char t"

text \<open>\<^verbatim>\<open>.replace(/\s+/g, '-')\<close>: every maximal run of white space becomes one hyphen.
  The flag says that the previous character was white space.\<close>

fun replace_spaces :: "bool \<Rightarrow> string \<Rightarrow> string" where
  "replace_spaces in_run [] = []"
| "replace_spaces in_run (c # cs) =
     (if isSpace c then (if in_run then replace_spaces True cs else CHR ''-'' # replace_spaces True cs)
      else c # replace_spaces False cs)"

definition isWord :: "char \<Rightarrow> bool" where
  "isWord c = (c \<in> set ''abcdefghijklmnopqrstuvwxyzABCDEFGHIJKLMNOPQRSTUVWXYZ0123456789_'')"

text \<open>\<^verbatim>\<open>.replace(/[^\w\-]+/g, '')\<close>\<close>

definition strip_nonword :: "string \<Rightarrow> string" where
  "strip_nonword t = filter (\<lambda>c. isWord c \<or> c = CHR ''-'') t"

text \<open>The slug that \<^verbatim>\<open>CategorySchema.pre('save')\<close> derives from the name.\<close>

definition slugify :: "string \<Rightarrow> string" where
  "slugify nm = strip_nonword (replace_spaces False (toLowerCase (trim nm)))"

section \<open>The primary store\<close>

text \<open>
  The collection is the list of its documents in insertion order. A store call that
  throws returns \<open>Inl\<close> of the error; the controllers' outer \<^verbatim>\<open>catch\<close> turns it
  into the response with status 500.
\<close>

datatype js_error =
    ValidationError string
  | DuplicateKey string
  | CastError string
  | TypeError string
  | IndexError string

definition Category_findById :: "category list \<Rightarrow> oid \<Rightarrow> category option" where
  "Category_findById s i = find (\<lambda>c. cid c = i) s"

text \<open>\<^verbatim>\<open>Category.findOne({ name: n })\<close>\<close>

definition Category_findOne_name :: "category list \<Rightarrow> string \<Rightarrow> category option" where
  "Category_findOne_name s n = find (\<lambda>c. name c = n) s"

text \<open>\<^verbatim>\<open>Category.find({ parent: p })\<close> and \<^verbatim>\<open>Category.exists({ parent: p })\<close>\<close>

definition Category_find_parent :: "category list \<Rightarrow> oid \<Rightarrow> category list" where
  "Category_find_parent s p = filter (\<lambda>c. parent c = Some p) s"

definition Category_exists_parent :: "category list \<Rightarrow> oid \<Rightarrow> bool" where
  "Category_exists_parent s p = (Category_find_parent s p \<noteq> [])"

text \<open>
  \<^verbatim>\<open>categoryData\<close> of \<^verbatim>\<open>createCategory\<close>. \<open>d_parent\<close> and \<open>d_ancestors\<close> are
  \<open>None\<close> and \<open>[]\<close> when the controller leaves them out: the schema's defaults.
\<close>

record categoryData =
  d_name :: string
  d_description :: "string option"
  d_createdBy :: oid
  d_parent :: "oid option"
  d_ancestors :: "oid list"

text \<open>
  \<^verbatim>\<open>Category.create(categoryData)\<close>: the new document with the schema's defaults and
  setters, the pre-save hook (slug, \<^verbatim>\<open>updatedAt\<close>), the \<^verbatim>\<open>required\<close> validator of
  the name and the unique indexes on \<^verbatim>\<open>_id\<close>, \<^verbatim>\<open>name\<close> and \<^verbatim>\<open>slug\<close>. \<open>newId\<close>
  is the object id generated for the document.
\<close>

definition new_document :: "oid \<Rightarrow> nat \<Rightarrow> categoryData \<Rightarrow> category" where
  "new_document newId now d =
     \<lparr>cid = newId, name = trim (d_name d), description = map_option trim (d_description d),
      slug = slugify (trim (d_name d)), parent = d_parent d, ancestors = d_ancestors d,
      resourceCount = 0, isActive = True, createdBy = d_createdBy d,
      createdAt = now, updatedAt = now\<rparr>"

definition Category_create ::
  "category list \<Rightarrow> oid \<Rightarrow> nat \<Rightarrow> categoryData \<Rightarrow> js_error + category \<times> category list" where
  "Category_create s newId now d =
     (let doc = new_document newId now d in
      if name doc = [] then Inl (ValidationError ''Category name is required'')
      else if Category_findById s newId \<noteq> None then Inl (DuplicateKey ''_id'')
      else if Category_findOne_name s (name doc) \<noteq> None then Inl (DuplicateKey ''name'')
      else if find (\<lambda>c. slug c = slug doc) s \<noteq> None then Inl (DuplicateKey ''slug'')
      else Inr (doc, s @ [doc]))"

text \<open>
  \<^verbatim>\<open>doc.save()\<close> of a loaded document: the pre-save hook sets \<^verbatim>\<open>updatedAt\<close> (the
  name is not modified in any caller, so the slug stays), and the stored document with
  this \<^verbatim>\<open>_id\<close> is replaced.
\<close>

definition Document_save :: "category list \<Rightarrow> category \<Rightarrow> nat \<Rightarrow> category list" where
  "Document_save s doc now =
     map (\<lambda>d. if cid d = cid doc then doc\<lparr>updatedAt := now\<rparr> else d) s"

section \<open>Requests, responses and the search index\<close>

record user =
  uid :: oid
  role :: string

text \<open>
  \<^verbatim>\<open>req.body\<close>: every schema path a client can send. A path is absent (\<open>None\<close>,
  \<open>Absent\<close>) or carries a value of its schema type; \<^verbatim>\<open>parent\<close>, whose schema default
  is \<^verbatim>\<open>null\<close>, can also be sent as \<^verbatim>\<open>null\<close>.
\<close>

datatype 'a field = Absent | Null | Value 'a

record payload =
  p_name :: "string option"
  p_description :: "string option"
  p_slug :: "string option"
  p_parent :: "oid field"
  p_ancestors :: "oid list option"
  p_resourceCount :: "int option"
  p_isActive :: "bool option"
  p_createdBy :: "oid option"

text \<open>JavaScript truthiness of \<^verbatim>\<open>req.body.parent\<close>: a non-empty string.\<close>

definition truthy :: "oid field \<Rightarrow> bool" where
  "truthy f = (case f of Value p \<Rightarrow> p \<noteq> [] | _ \<Rightarrow> False)"

text \<open>A hit of the index is the list of its fields; a listing holds hits of the index or
  documents of the store.\<close>

type_synonym es_hit = "(string \<times> string) list"

datatype item = Hit es_hit | Doc category

datatype body =
    Data category
  | Empty
  | Listing nat "item list"
  | Message string
  | ServerError string js_error

text \<open>\<open>Status code body\<close> is \<^verbatim>\<open>res.status(code).json(body)\<close>; \<open>Next e\<close> is
  \<^verbatim>\<open>next(e)\<close>, the error handed to the error middleware.\<close>

datatype response = Status nat body | Next js_error

text \<open>The failures of the specification's taxonomy, as the responses the controller sends.\<close>

definition NotFound :: response where
  "NotFound = Status 404 (Message ''Category not found'')"

definition DuplicateName :: response where
  "DuplicateName = Status 400 (Message ''Category with this name already exists'')"

definition CycleError :: response where
  "CycleError = Status 400 (Message ''Cannot move category to its own subcategory or itself'')"

definition HasChildren :: response where
  "HasChildren = Status 400 (Message
     ''Cannot delete category with subcategories. Delete subcategories first or reassign them.'')"

definition NotEmpty :: response where
  "NotEmpty = Status 400 (Message
     ''Cannot delete category with resources. Remove resources first or reassign them.'')"

text \<open>
  The documents the controller sends to the index of categories, one constructor per call
  site, and the calls themselves. The environment \<open>es\<close> says which calls throw:
  \<open>Some (statusCode, message)\<close> is the error of the client.
\<close>

datatype es_doc =
    CreatedDoc oid string "string option" string "oid option" int nat
  | UpdatedDoc string "string option" string nat
  | MovedDoc "oid option" nat

datatype es_call =
    IndexDocument oid es_doc
  | UpdateDocument oid es_doc
  | DeleteDocument oid

type_synonym es_env = "es_call \<Rightarrow> (nat \<times> string) option"

datatype log_entry = LogWarn string | LogError string | LogDebug string

text \<open>\<^verbatim>\<open>indexDocument\<close> and \<^verbatim>\<open>updateDocument\<close> rethrow the client's error;
  \<^verbatim>\<open>deleteDocument\<close> returns normally when the status code is 404.\<close>

definition es_throws :: "es_env \<Rightarrow> es_call \<Rightarrow> string option" where
  "es_throws es c =
     (case es c of
        None \<Rightarrow> None
      | Some (code, msg) \<Rightarrow>
          (case c of
             DeleteDocument i \<Rightarrow> if code = 404 then None else Some msg
           | _ \<Rightarrow> Some msg))"

text \<open>\<^verbatim>\<open>try { await elasticSearch... } catch (esError) { logger.warn(...) }\<close>: the log
  lines the handler writes.\<close>

definition try_es :: "es_env \<Rightarrow> es_call \<Rightarrow> string \<Rightarrow> log_entry list" where
  "try_es es c prefix = (case es_throws es c of None \<Rightarrow> [] | Some msg \<Rightarrow> [LogWarn (prefix @ msg)])"

text \<open>What one request does: the response, the store afterwards, the index calls it
  attempted and the lines it logged.\<close>

record outcome =
  response :: response
  store :: "category list"
  es_calls :: "es_call list"
  logs :: "log_entry list"

text \<open>An early \<^verbatim>\<open>return res.status(...).json(...)\<close>: nothing written.\<close>

definition reply :: "category list \<Rightarrow> response \<Rightarrow> outcome" where
  "reply s r = \<lparr>response = r, store = s, es_calls = [], logs = []\<rparr>"

text \<open>The outer \<^verbatim>\<open>catch (error)\<close> of a handler.\<close>

definition server_error :: "category list \<Rightarrow> string \<Rightarrow> js_error \<Rightarrow> outcome" where
  "server_error s what e =
     \<lparr>response = Status 500 (ServerError (''Server error while '' @ what) e), store = s,
      es_calls = [], logs = [LogError (''Error '' @ what)]\<rparr>"

section \<open>createCategory\<close>

text \<open>The part of \<^verbatim>\<open>createCategory\<close> that builds \<^verbatim>\<open>categoryData\<close>: a truthy
  \<^verbatim>\<open>parent\<close> must exist, and gives the ancestors of the new node.\<close>

definition create_data ::
  "category list \<Rightarrow> user \<Rightarrow> string \<Rightarrow> payload \<Rightarrow> response + categoryData" where
  "create_data s u nm b =
     (let categoryData = \<lparr>d_name = trim nm, d_description = p_description b,
                          d_createdBy = uid u, d_parent = None, d_ancestors = []\<rparr> in
      case p_parent b of
        Value p \<Rightarrow>
          if p = [] then Inr categoryData
          else (case Category_findById s p of
                  None \<Rightarrow> Inl (Status 404 (Message ''Parent category not found''))
                | Some parentCategory \<Rightarrow>
                    Inr (categoryData\<lparr>d_parent := Some p,
                                       d_ancestors := ancestors parentCategory @ [p]\<rparr>))
      | _ \<Rightarrow> Inr categoryData)"

definition created_doc :: "category \<Rightarrow> es_doc" where
  "created_doc c =
     CreatedDoc (cid c) (name c) (description c) (slug c) (parent c) (resourceCount c) (createdAt c)"

definition createCategory ::
  "es_env \<Rightarrow> nat \<Rightarrow> oid \<Rightarrow> user \<Rightarrow> payload \<Rightarrow> category list \<Rightarrow> outcome" where
  "createCategory es now newId u b s =
     (case p_name b of
        None \<Rightarrow> server_error s ''creating category'' (TypeError ''name is undefined'')
      | Some nm \<Rightarrow>
          if Category_findOne_name s (trim nm) \<noteq> None then reply s DuplicateName
          else
            (case create_data s u nm b of
               Inl r \<Rightarrow> reply s r
             | Inr categoryData \<Rightarrow>
                 (case Category_create s newId now categoryData of
                    Inl e \<Rightarrow> server_error s ''creating category'' e
                  | Inr (category, s') \<Rightarrow>
                      \<lparr>response = Status 201 (Data category), store = s',
                       es_calls = [IndexDocument (cid category) (created_doc category)],
                       logs = try_es es (IndexDocument (cid category) (created_doc category))
                                ''Failed to index category in Elasticsearch: ''\<rparr>)))"

section \<open>updateCategory\<close>

text \<open>
  \<^verbatim>\<open>Category.findByIdAndUpdate(id, { ...req.body, updatedAt: Date.now() },
  { new: true, runValidators: true })\<close>: every path present in the body is set, after the
  schema's setters (\<^verbatim>\<open>trim\<close>, \<^verbatim>\<open>lowercase\<close>); \<^verbatim>\<open>null\<close> is a value of
  \<^verbatim>\<open>parent\<close>; the empty string is not an object id.
\<close>

definition apply_update :: "payload \<Rightarrow> nat \<Rightarrow> category \<Rightarrow> category" where
  "apply_update b now c =
     c\<lparr>name := (case p_name b of None \<Rightarrow> name c | Some n \<Rightarrow> trim n),
       description := (case p_description b of None \<Rightarrow> description c | Some d \<Rightarrow> Some (trim d)),
       slug := (case p_slug b of None \<Rightarrow> slug c | Some g \<Rightarrow> toLowerCase g),
       parent := (case p_parent b of Absent \<Rightarrow> parent c | Null \<Rightarrow> None | Value p \<Rightarrow> Some p),
       ancestors := (case p_ancestors b of None \<Rightarrow> ancestors c | Some a \<Rightarrow> a),
       resourceCount := (case p_resourceCount b of None \<Rightarrow> resourceCount c | Some n \<Rightarrow> n),
       isActive := (case p_isActive b of None \<Rightarrow> isActive c | Some a \<Rightarrow> a),
       createdBy := (case p_createdBy b of None \<Rightarrow> createdBy c | Some w \<Rightarrow> w),
       updatedAt := now\<rparr>"

definition Category_findByIdAndUpdate ::
  "category list \<Rightarrow> oid \<Rightarrow> payload \<Rightarrow> nat \<Rightarrow> js_error + category \<times> category list" where
  "Category_findByIdAndUpdate s i b now =
     (case Category_findById s i of
        None \<Rightarrow> Inl (TypeError ''the updated document is null'')
      | Some c \<Rightarrow>
          if p_parent b = Value [] then Inl (CastError ''parent'')
          else if (case p_name b of None \<Rightarrow> False | Some n \<Rightarrow> trim n = [])
          then Inl (ValidationError ''Category name is required'')
          else if find (\<lambda>d. cid d \<noteq> i \<and> name d = name (apply_update b now c)) s \<noteq> None
          then Inl (DuplicateKey ''name'')
          else if find (\<lambda>d. cid d \<noteq> i \<and> slug d = slug (apply_update b now c)) s \<noteq> None
          then Inl (DuplicateKey ''slug'')
          else Inr (apply_update b now c,
                    map (\<lambda>d. if cid d = i then apply_update b now c else d) s))"

text \<open>\<^verbatim>\<open>req.body.name && req.body.name.trim() !== category.name\<close>, then the lookup.\<close>

definition name_taken :: "category list \<Rightarrow> payload \<Rightarrow> category \<Rightarrow> bool" where
  "name_taken s b category =
     (case p_name b of
        None \<Rightarrow> False
      | Some nm \<Rightarrow> nm \<noteq> [] \<and> trim nm \<noteq> name category
                   \<and> Category_findOne_name s (trim nm) \<noteq> None)"

text \<open>\<^verbatim>\<open>if (req.body.parent) { delete req.body.parent; }\<close>\<close>

definition drop_parent :: "payload \<Rightarrow> payload" where
  "drop_parent b = (if truthy (p_parent b) then b\<lparr>p_parent := Absent\<rparr> else b)"

definition updated_doc :: "category \<Rightarrow> es_doc" where
  "updated_doc c = UpdatedDoc (name c) (description c) (slug c) (updatedAt c)"

definition updateCategory ::
  "es_env \<Rightarrow> nat \<Rightarrow> user \<Rightarrow> oid \<Rightarrow> payload \<Rightarrow> category list \<Rightarrow> outcome" where
  "updateCategory es now u i b s =
     (case Category_findById s i of
        None \<Rightarrow> reply s NotFound
      | Some category \<Rightarrow>
          if role u \<noteq> ''admin''
          then reply s (Status 403 (Message ''Not authorized to update categories''))
          else if name_taken s b category then reply s DuplicateName
          else
            (case Category_findByIdAndUpdate s i (drop_parent b) now of
               Inl e \<Rightarrow> server_error s ''updating category'' e
             | Inr (category', s') \<Rightarrow>
                 \<lparr>response = Status 200 (Data category'), store = s',
                  es_calls = [UpdateDocument (cid category') (updated_doc category')],
                  logs = try_es es (UpdateDocument (cid category') (updated_doc category'))
                           ''Failed to update category in Elasticsearch: ''\<rparr>))"

section \<open>deleteCategory\<close>

text \<open>
  \<^verbatim>\<open>category.remove()\<close>. The repository's \<^verbatim>\<open>package.json\<close> requires
  \<^verbatim>\<open>mongoose ^7.4.0\<close>, and Mongoose 7 has no \<^verbatim>\<open>remove\<close> on documents
  (\<^verbatim>\<open>deleteOne\<close> replaces it): the property is undefined and calling it throws a
  \<^verbatim>\<open>TypeError\<close>, which the handler's \<^verbatim>\<open>catch\<close> answers with status 500.
\<close>

definition Document_remove :: "category list \<Rightarrow> category \<Rightarrow> js_error + category list" where
  "Document_remove s doc = Inl (TypeError ''category.remove is not a function'')"

definition deleteCategory :: "es_env \<Rightarrow> user \<Rightarrow> oid \<Rightarrow> category list \<Rightarrow> outcome" where
  "deleteCategory es u i s =
     (case Category_findById s i of
        None \<Rightarrow> reply s NotFound
      | Some category \<Rightarrow>
          if role u \<noteq> ''admin''
          then reply s (Status 403 (Message ''Not authorized to delete categories''))
          else if Category_exists_parent s i then reply s HasChildren
          else if resourceCount category > 0 then reply s NotEmpty
          else
            (case Document_remove s category of
               Inl e \<Rightarrow> server_error s ''deleting category'' e
             | Inr s' \<Rightarrow>
                 \<lparr>response = Status 200 Empty, store = s',
                  es_calls = [DeleteDocument (cid category)],
                  logs = try_es es (DeleteDocument (cid category))
                           ''Failed to delete category from Elasticsearch: ''\<rparr>))"

section \<open>moveCategory\<close>

text \<open>
  \<^verbatim>\<open>updateSubcategoryAncestors\<close> and its \<^verbatim>\<open>for\<close> loop over the children found. The
  recursion ends only when the parent links below the node have no cycle, so the model
  counts the depth of the calls: \<open>None\<close> is a recursion deeper than \<open>fuel\<close>.
\<close>

function updateSubcategoryAncestors ::
    "nat \<Rightarrow> nat \<Rightarrow> category list \<Rightarrow> oid \<Rightarrow> oid list \<Rightarrow> category list option"
  and for_subcategories ::
    "nat \<Rightarrow> nat \<Rightarrow> category list \<Rightarrow> oid \<Rightarrow> oid list \<Rightarrow> category list \<Rightarrow> category list option"
where
  "updateSubcategoryAncestors 0 now s parentId parentAncestors = None"
| "updateSubcategoryAncestors (Suc k) now s parentId parentAncestors =
     for_subcategories k now (Category_find_parent s parentId) parentId parentAncestors s"
| "for_subcategories k now [] parentId parentAncestors s = Some s"
| "for_subcategories k now (subcategory # rest) parentId parentAncestors s =
     (case updateSubcategoryAncestors k now
             (Document_save s (subcategory\<lparr>ancestors := parentAncestors @ [parentId]\<rparr>) now)
             (cid subcategory) (parentAncestors @ [parentId]) of
        None \<Rightarrow> None
      | Some s' \<Rightarrow> for_subcategories k now rest parentId parentAncestors s')"
  by pat_completeness auto
termination
  by (relation "inv_image (less_than <*lex*> less_than)
        (\<lambda>x. case x of Inl (k, _) \<Rightarrow> (k, 0) | Inr (k, _, subs, _) \<Rightarrow> (k, Suc (length subs)))")
     auto

text \<open>The new parent and ancestors of the moved node, or the early response.\<close>

definition move_target :: "category list \<Rightarrow> category \<Rightarrow> oid \<Rightarrow> string \<Rightarrow> response + category" where
  "move_target s category categoryId newParentId =
     (if newParentId = ''root'' then Inr (category\<lparr>parent := None, ancestors := []\<rparr>)
      else
        (case Category_findById s newParentId of
           None \<Rightarrow> Inl (Status 404 (Message ''New parent category not found''))
         | Some newParent \<Rightarrow>
             if categoryId \<in> set (ancestors newParent) \<or> newParentId = categoryId
             then Inl CycleError
             else Inr (category\<lparr>parent := Some newParentId,
                                ancestors := ancestors newParent @ [newParentId]\<rparr>)))"

definition moveCategory ::
  "nat \<Rightarrow> es_env \<Rightarrow> nat \<Rightarrow> user \<Rightarrow> oid \<Rightarrow> string \<Rightarrow> category list \<Rightarrow> outcome option" where
  "moveCategory fuel es now u categoryId newParentId s =
     (if role u \<noteq> ''admin''
      then Some (reply s (Status 403 (Message ''Not authorized to move categories'')))
      else
        (case Category_findById s categoryId of
           None \<Rightarrow> Some (reply s NotFound)
         | Some category \<Rightarrow>
             (case move_target s category categoryId newParentId of
                Inl r \<Rightarrow> Some (reply s r)
              | Inr moved \<Rightarrow>
                  (case updateSubcategoryAncestors fuel now (Document_save s moved now)
                          categoryId (ancestors moved) of
                     None \<Rightarrow> None
                   | Some s' \<Rightarrow>
                       Some \<lparr>response = Status 200 (Data (moved\<lparr>updatedAt := now\<rparr>)),
                             store = s',
                             es_calls = [UpdateDocument (cid moved) (MovedDoc (parent moved) now)],
                             logs = try_es es (UpdateDocument (cid moved) (MovedDoc (parent moved) now))
                                      ''Failed to update moved category in Elasticsearch: ''\<rparr>))))"

section \<open>Trees built by create and move\<close>

datatype op =
    Create nat oid user payload
  | Move nat user oid string

definition succeeded :: "response \<Rightarrow> bool" where
  "succeeded r = (case r of Status code b \<Rightarrow> code = 200 \<or> code = 201 | Next e \<Rightarrow> False)"

text \<open>The store after a sequence of requests, each of which succeeded; \<open>None\<close> when one
  of them failed or did not return.\<close>

fun build :: "nat \<Rightarrow> es_env \<Rightarrow> op list \<Rightarrow> category list \<Rightarrow> category list option" where
  "build fuel es [] s = Some s"
| "build fuel es (Create now newId u b # ops) s =
     (if succeeded (response (createCategory es now newId u b s))
      then build fuel es ops (store (createCategory es now newId u b s))
      else None)"
| "build fuel es (Move now u categoryId newParentId # ops) s =
     (case moveCategory fuel es now u categoryId newParentId s of
        None \<Rightarrow> None
      | Some r \<Rightarrow> if succeeded (response r) then build fuel es ops (store r) else None)"

text \<open>The chain of ids from the root down to a node, read off the \<^verbatim>\<open>parent\<close> links
  alone: \<open>parent_chain s p as\<close> says that \<open>as\<close> is that chain for the node \<open>p\<close>, itself
  last (and the empty chain for no node).\<close>

inductive parent_chain :: "category list \<Rightarrow> oid option \<Rightarrow> oid list \<Rightarrow> bool" for s where
  root: "parent_chain s None []"
| link: "Category_findById s p = Some c \<Longrightarrow> parent_chain s (parent c) as
         \<Longrightarrow> parent_chain s (Some p) (as @ [p])"

code_pred parent_chain .

text \<open>Invariant I2 at one node: its ancestors are its parent's ancestors and its parent.\<close>

definition ancestors_ok :: "category list \<Rightarrow> category \<Rightarrow> bool" where
  "ancestors_ok s c =
     (case parent c of
        None \<Rightarrow> ancestors c = []
      | Some p \<Rightarrow>
          (case Category_findById s p of
             None \<Rightarrow> False
           | Some pc \<Rightarrow> ancestors c = ancestors pc @ [p]))"

definition tree_inv :: "category list \<Rightarrow> bool" where
  "tree_inv s = (distinct (map cid s) \<and> list_all (ancestors_ok s) s)"


section \<open>Searching\<close>

text \<open>
  What \<^verbatim>\<open>fullTextSearch\<close> and \<^verbatim>\<open>filteredSearch\<close> return (the result of
  \<^verbatim>\<open>search\<close>): the total and the array of hits, with the aggregations when the
  index sent any.
\<close>

record es_results =
  total :: nat
  hits :: "es_hit list"
  aggregations :: "(string \<times> string list) list option"

subsection \<open>getCategories\<close>

text \<open>\<^verbatim>\<open>req.query\<close> of the listing; the numbers are what \<^verbatim>\<open>parseInt\<close> returns.\<close>

record list_query =
  lq_query :: "string option"
  lq_limit :: "int option"
  lq_page :: "int option"
  lq_sort :: "string option"
  lq_order :: "string option"
  lq_parentId :: "string option"

text \<open>The filter document given to \<^verbatim>\<open>Category.find\<close> and \<^verbatim>\<open>countDocuments\<close>: a
  condition on \<^verbatim>\<open>parent\<close> (\<open>Some None\<close> is \<^verbatim>\<open>parent: null\<close>) and a \<^verbatim>\<open>$text\<close>
  search.\<close>

record mongo_filter =
  f_parent :: "oid option option"
  f_text :: "string option"

text \<open>
  The query engine of the primary store, a parameter: \<open>find_sorted f sort skip limit s\<close>
  is \<^verbatim>\<open>Category.find(f).sort(sort).skip(skip).limit(limit)\<close> on the store \<open>s\<close>, and
  \<open>count_documents f s\<close> is \<^verbatim>\<open>Category.countDocuments(f)\<close>; either may throw.
\<close>

record query_engine =
  find_sorted :: "mongo_filter \<Rightarrow> string \<times> int \<Rightarrow> int \<Rightarrow> int \<Rightarrow> category list
                  \<Rightarrow> js_error + category list"
  count_documents :: "mongo_filter \<Rightarrow> category list \<Rightarrow> js_error + nat"

text \<open>The arguments of \<^verbatim>\<open>elasticSearch.fullTextSearch\<close> in the listing, and the index as
  a parameter: \<open>Inl\<close> is the message of the error it throws.\<close>

record es_query =
  eq_text :: string
  eq_fields :: "string list"
  eq_filters :: "(string \<times> string) list"
  eq_size :: int
  eq_from :: int

type_synonym es_search = "es_query \<Rightarrow> string + es_results"

definition filterQuery :: "string option \<Rightarrow> mongo_filter" where
  "filterQuery parentId =
     (case parentId of
        None \<Rightarrow> \<lparr>f_parent = None, f_text = None\<rparr>
      | Some p \<Rightarrow>
          if p = [] then \<lparr>f_parent = None, f_text = None\<rparr>
          else if p = ''root'' then \<lparr>f_parent = Some None, f_text = None\<rparr>
          else \<lparr>f_parent = Some (Some p), f_text = None\<rparr>)"

text \<open>\<^verbatim>\<open>find\<close>, then \<^verbatim>\<open>countDocuments\<close>, then the response with status 200; an error
  of either reaches the outer \<^verbatim>\<open>catch\<close>.\<close>

definition list_from_store ::
  "query_engine \<Rightarrow> mongo_filter \<Rightarrow> string \<times> int \<Rightarrow> int \<Rightarrow> int \<Rightarrow> category list \<Rightarrow> response" where
  "list_from_store db f srt skip lim s =
     (case find_sorted db f srt skip lim s of
        Inl e \<Rightarrow> Status 500 (ServerError ''Server error while fetching categories'' e)
      | Inr categories \<Rightarrow>
          (case count_documents db f s of
             Inl e \<Rightarrow> Status 500 (ServerError ''Server error while fetching categories'' e)
           | Inr count \<Rightarrow> Status 200 (Listing count (map Doc categories))))"

definition getCategories ::
  "query_engine \<Rightarrow> es_search \<Rightarrow> list_query \<Rightarrow> category list \<Rightarrow> response \<times> log_entry list" where
  "getCategories db es rq s =
     (let query = (case lq_query rq of None \<Rightarrow> [] | Some q \<Rightarrow> q);
          limit = (case lq_limit rq of None \<Rightarrow> 20 | Some l \<Rightarrow> l);
          page = (case lq_page rq of None \<Rightarrow> 1 | Some p \<Rightarrow> p);
          srt = (case lq_sort rq of None \<Rightarrow> ''name'' | Some f \<Rightarrow> f);
          order = (case lq_order rq of None \<Rightarrow> ''asc'' | Some d \<Rightarrow> d);
          options_sort = (srt, if order = ''desc'' then - 1 else 1);
          skip = (page - 1) * limit
      in
      if query \<noteq> [] then
        (case es \<lparr>eq_text = query, eq_fields = [''name'', ''description''],
                  eq_filters = (case lq_parentId rq of
                                  None \<Rightarrow> []
                                | Some p \<Rightarrow> if p = [] then [] else [(''parent'', p)]),
                  eq_size = limit, eq_from = skip\<rparr> of
           Inr esResults \<Rightarrow>
             (Status 200 (Listing (total esResults) (map Hit (hits esResults))), [])
         | Inl msg \<Rightarrow>
             (list_from_store db ((filterQuery (lq_parentId rq))\<lparr>f_text := Some query\<rparr>)
                options_sort skip limit s,
              [LogWarn (''Elasticsearch search failed, falling back to MongoDB: '' @ msg)]))
      else (list_from_store db (filterQuery (lq_parentId rq)) options_sort skip limit s, []))"

subsection \<open>advancedSearch\<close>

text \<open>\<^verbatim>\<open>req.query\<close> of the advanced search; the numbers are what \<^verbatim>\<open>parseInt\<close>
  returns.\<close>

record search_query =
  sq_q :: "string option"
  sq_type :: "string option"
  sq_categories :: "string option"
  sq_tags :: "string option"
  sq_resourceType :: "string option"
  sq_dateFrom :: "string option"
  sq_dateTo :: "string option"
  sq_verified :: "string option"
  sq_sort :: "string option"
  sq_order :: "string option"
  sq_limit :: "int option"
  sq_page :: "int option"

definition given :: "string option \<Rightarrow> bool" where
  "given v = (case v of None \<Rightarrow> False | Some t \<Rightarrow> t \<noteq> [])"

text \<open>\<^verbatim>\<open>String.prototype.split(',')\<close>\<close>

fun split_comma :: "string \<Rightarrow> string list" where
  "split_comma [] = [[]]"
| "split_comma (c # cs) =
     (if c = CHR '','' then [] # split_comma cs
      else (case split_comma cs of
              [] \<Rightarrow> [[c]]
            | w # ws \<Rightarrow> (c # w) # ws))"

datatype filter_value =
    Terms "string list"
  | Term string
  | Flag bool
  | Range string "string option" "string option"

text \<open>The \<^verbatim>\<open>filters\<close> object, key by key in the order the handler sets them.\<close>

definition search_filters :: "search_query \<Rightarrow> (string \<times> filter_value) list" where
  "search_filters rq =
     (case sq_categories rq of
        Some cs \<Rightarrow> if cs \<noteq> [] then [(''categories'', Terms (split_comma cs))] else []
      | None \<Rightarrow> [])
     @ (case sq_tags rq of
          Some ts \<Rightarrow> if ts \<noteq> [] then [(''tags'', Terms (split_comma ts))] else []
        | None \<Rightarrow> [])
     @ (case sq_resourceType rq of
          Some t \<Rightarrow> if t \<noteq> [] then [(''resourceType'', Term t)] else []
        | None \<Rightarrow> [])
     @ (case sq_verified rq of
          Some v \<Rightarrow> if v \<noteq> [] then [(''isVerified'', Flag (v = ''true''))] else []
        | None \<Rightarrow> [])
     @ (if given (sq_dateFrom rq) \<or> given (sq_dateTo rq)
        then [(''dateRange'', Range ''createdAt'' (sq_dateFrom rq) (sq_dateTo rq))] else [])
     @ (if (case sq_type rq of None \<Rightarrow> True | Some t \<Rightarrow> t = ''resources'')
        then [(''visibility'', Term ''public''), (''status'', Term ''active'')] else [])"

text \<open>The \<^verbatim>\<open>sortOptions\<close> object: at most one key.\<close>

definition search_sort :: "search_query \<Rightarrow> (string \<times> string) list" where
  "search_sort rq =
     (let tp = (case sq_type rq of None \<Rightarrow> ''resources'' | Some t \<Rightarrow> t);
          srt = (case sq_sort rq of None \<Rightarrow> ''relevance'' | Some f \<Rightarrow> f);
          order = (case sq_order rq of None \<Rightarrow> ''desc'' | Some d \<Rightarrow> d)
      in
      if srt = ''relevance'' \<and> given (sq_q rq) then [(''_score'', order)]
      else if srt = ''date'' then [(''createdAt'', order)]
      else if srt = ''rating'' \<and> tp = ''resources'' then [(''averageRating'', order)]
      else if srt = ''views'' \<and> tp = ''resources'' then [(''viewCount'', order)]
      else if srt = ''downloads'' \<and> tp = ''resources'' then [(''downloadCount'', order)]
      else if srt = ''name'' \<or> srt = ''title''
      then [(if tp = ''resources'' then ''title.keyword'' else ''name.keyword'', order)]
      else [])"

text \<open>The index of a type: the configuration names the indexes of resources, users and
  collections only, so the index of tags is undefined and the default is taken.\<close>

definition search_index :: "search_query \<Rightarrow> string" where
  "search_index rq =
     (case sq_type rq of
        None \<Rightarrow> ''knowledge_garden_resources''
      | Some t \<Rightarrow>
          if t = ''users'' then ''knowledge_garden_users''
          else if t = ''collections'' then ''knowledge_garden_collections''
          else ''knowledge_garden_resources'')"

text \<open>The call of the index: \<^verbatim>\<open>fullTextSearch\<close> when \<^verbatim>\<open>q\<close> is given, and
  \<^verbatim>\<open>filteredSearch\<close> otherwise.\<close>

record search_call =
  sc_index :: string
  sc_text :: "string option"
  sc_fields :: "string list"
  sc_filters :: "(string \<times> filter_value) list"
  sc_size :: int
  sc_from :: int
  sc_sort :: "(string \<times> string) list"

definition search_call_of :: "search_query \<Rightarrow> search_call" where
  "search_call_of rq =
     (let limit = (case sq_limit rq of None \<Rightarrow> 10 | Some l \<Rightarrow> l);
          page = (case sq_page rq of None \<Rightarrow> 1 | Some p \<Rightarrow> p)
      in
      \<lparr>sc_index = search_index rq,
       sc_text = (if given (sq_q rq) then sq_q rq else None),
       sc_fields = (if (case sq_type rq of None \<Rightarrow> True | Some t \<Rightarrow> t = ''resources'')
                    then [''title^3'', ''description^2'', ''tags'', ''ownerName'']
                    else [''name^2'', ''description'']),
       sc_filters = search_filters rq,
       sc_size = limit, sc_from = (page - 1) * limit,
       sc_sort = search_sort rq\<rparr>)"

text \<open>
  \<^verbatim>\<open>advancedSearch\<close>. There is no \<^verbatim>\<open>try\<close> around the call of the index: its error
  reaches the handler's \<^verbatim>\<open>catch\<close>, which calls \<^verbatim>\<open>next(err)\<close>. When the index
  answers, the handler reads \<^verbatim>\<open>results.hits.hits\<close>; \<^verbatim>\<open>results.hits\<close> is the array
  of hits that \<^verbatim>\<open>search\<close> built, which has no property \<^verbatim>\<open>hits\<close>, so
  \<^verbatim>\<open>.map\<close> is read from \<^verbatim>\<open>undefined\<close>: a \<^verbatim>\<open>TypeError\<close>, caught the same way.
\<close>

definition advancedSearch :: "(search_call \<Rightarrow> string + es_results) \<Rightarrow> search_query \<Rightarrow> response" where
  "advancedSearch es rq =
     (case es (search_call_of rq) of
        Inl msg \<Rightarrow> Next (IndexError msg)
      | Inr results \<Rightarrow> Next (TypeError ''Cannot read properties of undefined (reading map)''))"

section \<open>The cache\<close>





section \<open>Notions used in the proofs\<close>

text \<open>
  The structure of the tree is the list of the pairs of a node and its parent. A rank is a
  number per node that is larger at a node than at its parent: it exists exactly when
  the parent links have no cycle. The children of a node are the nodes that list it as
  parent, and a node is bad when its ancestors are not its parent's ancestors and its
  parent. The rank of the last definition is the one of a tree in which the node \<open>i\<close>
  has just been given a new parent outside its subtree.
\<close>

definition links :: "category list \<Rightarrow> (oid \<times> oid option) list" where
  "links s = map (\<lambda>c. (cid c, parent c)) s"

definition ranked :: "(oid \<Rightarrow> nat) \<Rightarrow> category list \<Rightarrow> bool" where
  "ranked r s = (\<forall>c\<in>set s. \<forall>q. parent c = Some q \<longrightarrow> r q < r (cid c))"

definition kids :: "category list \<Rightarrow> oid \<Rightarrow> oid set" where
  "kids s p = {i. (i, Some p) \<in> set (links s)}"

definition bad :: "category list \<Rightarrow> oid set" where
  "bad s = {i. \<exists>c. Category_findById s i = Some c \<and> \<not> ancestors_ok s c}"

definition stored_ancestors :: "category list \<Rightarrow> oid \<Rightarrow> oid list" where
  "stored_ancestors s i = (case Category_findById s i of None \<Rightarrow> [] | Some c \<Rightarrow> ancestors c)"

definition move_rank :: "category list \<Rightarrow> oid \<Rightarrow> nat \<Rightarrow> oid \<Rightarrow> nat" where
  "move_rank s i N j =
     (if j = i \<or> i \<in> set (stored_ancestors s j) then N + length (stored_ancestors s j)
      else length (stored_ancestors s j))"


section \<open>Example data\<close>

definition admin :: user where
  "admin = \<lparr>uid = ''u1'', role = ''admin''\<rparr>"

definition no_body :: payload where
  "no_body = \<lparr>p_name = None, p_description = None, p_slug = None, p_parent = Absent,
              p_ancestors = None, p_resourceCount = None, p_isActive = None, p_createdBy = None\<rparr>"

definition es_up :: es_env where
  "es_up c = None"

definition es_down :: es_env where
  "es_down c = Some (503, ''index unavailable'')"

definition node :: "oid \<Rightarrow> string \<Rightarrow> oid option \<Rightarrow> oid list \<Rightarrow> int \<Rightarrow> category" where
  "node i nm p as n =
     \<lparr>cid = i, name = nm, description = None, slug = slugify nm, parent = p, ancestors = as,
      resourceCount = n, isActive = True, createdBy = ''u1'', createdAt = 1, updatedAt = 1\<rparr>"

text \<open>Science, with Biology below it and Cells below Biology.\<close>

definition ex_tree :: "category list" where
  "ex_tree = [node ''a'' ''Science'' None [] 0,
              node ''b'' ''Biology'' (Some ''a'') [''a''] 3,
              node ''c'' ''Cells'' (Some ''b'') [''a'', ''b''] 0]"


text \<open>An index that refuses every search, and a search for the word cells.\<close>

definition search_down :: "search_call \<Rightarrow> string + es_results" where
  "search_down c = Inl ''index unavailable''"

definition ex_search :: search_query where
  "ex_search = \<lparr>sq_q = Some ''cells'', sq_type = None, sq_categories = None, sq_tags = None,
                 sq_resourceType = None, sq_dateFrom = None, sq_dateTo = None, sq_verified = None,
                 sq_sort = None, sq_order = None, sq_limit = None, sq_page = None\<rparr>"

text \<open>The scenario of the specification: A, B under A, C under B, then B moved to the
  root.\<close>

definition ex_ops :: "op list" where
  "ex_ops = [Create 1 ''a'' admin (no_body\<lparr>p_name := Some ''A''\<rparr>),
             Create 2 ''b'' admin (no_body\<lparr>p_name := Some ''B'', p_parent := Value ''a''\<rparr>),
             Create 3 ''c'' admin (no_body\<lparr>p_name := Some ''C'', p_parent := Value ''b''\<rparr>),
             Move 4 admin ''b'' ''root'']"


section \<open>Facts about the store\<close>

lemma findById_SomeD:
  "Category_findById s i = Some c \<Longrightarrow> c \<in> set s \<and> cid c = i"
  by (auto simp: Category_findById_def find_Some_iff)

lemma findById_None_iff:
  "Category_findById s i = None \<longleftrightarrow> i \<notin> cid ` set s"
  by (auto simp: Category_findById_def find_None_iff)

lemma findById_distinct:
  "distinct (map cid s) \<Longrightarrow> c \<in> set s \<Longrightarrow> Category_findById s (cid c) = Some c"
  by (induction s) (auto simp: Category_findById_def)



lemma tree_inv_okD:
  "tree_inv s \<Longrightarrow> c \<in> set s \<Longrightarrow> ancestors_ok s c"
  by (simp add: tree_inv_def list_all_iff)

section \<open>Moving a node into its own subtree\<close>






section \<open>Deleting a node\<close>




text \<open>Past both guards the handler calls \<^verbatim>\<open>category.remove()\<close>, which throws.\<close>

lemma delete_leaf_throws:
  assumes "Category_findById s i = Some c" and "role u = ''admin''"
    and "\<not> Category_exists_parent s i" and "resourceCount c \<le> 0"
  shows "deleteCategory es u i s
         = server_error s ''deleting category'' (TypeError ''category.remove is not a function'')"
  using assms by (simp add: deleteCategory_def Document_remove_def)

section \<open>Names are unique\<close>




text \<open>An update that sends the category's own name renames nothing: the guard skips the
  lookup, and the update goes on.\<close>

lemma update_with_own_name:
  "succeeded (response (updateCategory es_up 9 admin ''c'' (no_body\<lparr>p_name := Some ''Cells''\<rparr>) ex_tree))"
  by code_simp

section \<open>What an update writes\<close>

lemma findById_map:
  "(\<And>d. cid (f d) = cid d) \<Longrightarrow> Category_findById (map f s) i = map_option f (Category_findById s i)"
  by (induction s) (auto simp: Category_findById_def)

lemma findByIdAndUpdate_InrD:
  assumes "Category_findByIdAndUpdate s i b now = Inr (c', s')"
  shows "\<exists>c. Category_findById s i = Some c \<and> c' = apply_update b now c
             \<and> s' = map (\<lambda>d. if cid d = i then c' else d) s
             \<and> Category_findById s' i = Some c'"
proof -
  from assms obtain c where c: "Category_findById s i = Some c"
    by (auto simp: Category_findByIdAndUpdate_def split: option.splits)
  with assms have eq: "c' = apply_update b now c" "s' = map (\<lambda>d. if cid d = i then c' else d) s"
    by (auto simp: Category_findByIdAndUpdate_def split: if_splits)
  have "cid c = i"
    using c findById_SomeD by blast
  then have "cid c' = i"
    by (simp add: eq(1) apply_update_def)
  then have "Category_findById s' i = map_option (\<lambda>d. if cid d = i then c' else d) (Category_findById s i)"
    unfolding eq(2) by (intro findById_map) simp
  with c \<open>cid c = i\<close> eq show ?thesis
    by simp
qed




text \<open>
  C10 at the payload \<^verbatim>\<open>{ "parent": null }\<close>: the update of Cells succeeds, the stored
  parent of Cells changes from Biology to none, and its ancestors stay as they were.
\<close>

theorem update_with_null_parent:
  "map parent ex_tree = [None, Some ''a'', Some ''b'']
   \<and> succeeded (response (updateCategory es_up 9 admin ''c'' (no_body\<lparr>p_parent := Null\<rparr>) ex_tree))
   \<and> map parent (store (updateCategory es_up 9 admin ''c'' (no_body\<lparr>p_parent := Null\<rparr>) ex_tree))
       = [None, Some ''a'', None]
   \<and> map ancestors (store (updateCategory es_up 9 admin ''c'' (no_body\<lparr>p_parent := Null\<rparr>) ex_tree))
       = [[], [''a''], [''a'', ''b'']]"
  by code_simp

text \<open>Every other payload leaves all parents as they are.\<close>

lemma update_keeps_parent:
  assumes "p_parent b \<noteq> Null" and "distinct (map cid s)"
  shows "map parent (store (updateCategory es now u i b s)) = map parent s"
proof (cases "Category_findByIdAndUpdate s i (drop_parent b) now")
  case (Inl e)
  then show ?thesis
    by (simp add: updateCategory_def reply_def server_error_def split: option.splits)
next
  case (Inr p)
  obtain c2 s2 where p: "p = (c2, s2)"
    by (cases p)
  from Inr p obtain c where c: "Category_findById s i = Some c"
    and c2: "c2 = apply_update (drop_parent b) now c"
    and s2: "s2 = map (\<lambda>d. if cid d = i then c2 else d) s"
    using findByIdAndUpdate_InrD by blast
  have nv: "p_parent (drop_parent b) \<noteq> Value []"
    using Inr p c by (auto simp: Category_findByIdAndUpdate_def split: if_splits)
  have "p_parent (drop_parent b) = Absent"
    using assms nv by (cases "p_parent b") (auto simp: drop_parent_def truthy_def)
  then have "parent c2 = parent c"
    by (simp add: c2 apply_update_def)
  moreover have "\<And>d. d \<in> set s \<Longrightarrow> cid d = i \<Longrightarrow> parent d = parent c"
    using c assms(2) findById_distinct by fastforce
  ultimately have "map parent s2 = map parent s"
    by (simp add: s2)
  with Inr p show ?thesis
    by (simp add: updateCategory_def reply_def split: option.splits)
qed

section \<open>Searching while the index is unavailable\<close>

text \<open>
  C5 at the search for the word cells while the index refuses every call: the advanced
  search hands the error of the index to the error middleware, and sends no result.
\<close>

theorem advancedSearch_index_down:
  "advancedSearch search_down ex_search = Next (IndexError ''index unavailable'')
   \<and> \<not> succeeded (advancedSearch search_down ex_search)"
  by (simp add: advancedSearch_def search_down_def succeeded_def)

text \<open>The advanced search succeeds for no index and no query.\<close>

lemma advancedSearch_never_succeeds:
  "\<not> succeeded (advancedSearch es rq)"
  by (simp add: advancedSearch_def succeeded_def split: sum.splits)

text \<open>The listing of categories does fall back: when the index throws, the response is
  the one built from the primary store with the text filter, and the failure is logged.\<close>

lemma getCategories_falls_back:
  assumes "lq_query rq = Some q" and "q \<noteq> []"
    and "es \<lparr>eq_text = q, eq_fields = [''name'', ''description''],
              eq_filters = (case lq_parentId rq of
                              None \<Rightarrow> []
                            | Some p \<Rightarrow> if p = [] then [] else [(''parent'', p)]),
              eq_size = (case lq_limit rq of None \<Rightarrow> 20 | Some l \<Rightarrow> l),
              eq_from = ((case lq_page rq of None \<Rightarrow> 1 | Some p \<Rightarrow> p) - 1)
                        * (case lq_limit rq of None \<Rightarrow> 20 | Some l \<Rightarrow> l)\<rparr> = Inl msg"
  shows "getCategories db es rq s =
           (list_from_store db ((filterQuery (lq_parentId rq))\<lparr>f_text := Some q\<rparr>)
              (case lq_sort rq of None \<Rightarrow> ''name'' | Some f \<Rightarrow> f,
               if (case lq_order rq of None \<Rightarrow> ''asc'' | Some d \<Rightarrow> d) = ''desc'' then - 1 else 1)
              (((case lq_page rq of None \<Rightarrow> 1 | Some p \<Rightarrow> p) - 1)
                 * (case lq_limit rq of None \<Rightarrow> 20 | Some l \<Rightarrow> l))
              (case lq_limit rq of None \<Rightarrow> 20 | Some l \<Rightarrow> l) s,
            [LogWarn (''Elasticsearch search failed, falling back to MongoDB: '' @ msg)])"
  using assms by (simp add: getCategories_def Let_def)

lemma list_from_store_shape:
  assumes "find_sorted db f srt skip lim s = Inr categories" and "count_documents db f s = Inr n"
  shows "list_from_store db f srt skip lim s = Status 200 (Listing n (map Doc categories))"
  using assms by (simp add: list_from_store_def)

section \<open>Writes to the index after a move\<close>

lemma move_target_Inl:
  "move_target s c i p = Inl x \<Longrightarrow> \<not> succeeded x"
  by (auto simp: move_target_def succeeded_def CycleError_def split: if_splits option.splits)

lemma moveCategory_succeededD:
  assumes "moveCategory fuel es now u i p s = Some r" and "succeeded (response r)"
  shows "\<exists>c moved. role u = ''admin'' \<and> Category_findById s i = Some c
           \<and> move_target s c i p = Inr moved
           \<and> updateSubcategoryAncestors fuel now (Document_save s moved now) i (ancestors moved)
               = Some (store r)
           \<and> response r = Status 200 (Data (moved\<lparr>updatedAt := now\<rparr>))
           \<and> es_calls r = [UpdateDocument (cid moved) (MovedDoc (parent moved) now)]
           \<and> logs r = try_es es (UpdateDocument (cid moved) (MovedDoc (parent moved) now))
                        ''Failed to update moved category in Elasticsearch: ''"
proof -
  have adm: "role u = ''admin''"
    using assms by (auto simp: moveCategory_def reply_def succeeded_def split: if_splits)
  then obtain c where c: "Category_findById s i = Some c"
    using assms by (auto simp: moveCategory_def reply_def succeeded_def NotFound_def
        split: option.splits)
  obtain moved where m: "move_target s c i p = Inr moved"
    using assms adm c move_target_Inl [of s c i p]
    by (cases "move_target s c i p") (auto simp: moveCategory_def reply_def)
  from assms adm c m show ?thesis
    by (auto simp: moveCategory_def split: option.splits)
qed

text \<open>
  C6, as amended. A move that succeeds attempts exactly one write to the index: the update
  of the moved node's document with its new parent and time stamp. No call is made for
  the descendants whose ancestors the move repaired.
\<close>

theorem move_indexes_moved_node_only:
  assumes "moveCategory fuel es now u i p s = Some r" and "succeeded (response r)"
  shows "es_calls r = [UpdateDocument i (MovedDoc (if p = ''root'' then None else Some p) now)]"
proof -
  from moveCategory_succeededD [OF assms] obtain c moved where c: "Category_findById s i = Some c"
    and m: "move_target s c i p = Inr moved"
    and r: "es_calls r = [UpdateDocument (cid moved) (MovedDoc (parent moved) now)]"
    by blast
  have "cid c = i"
    using c findById_SomeD by blast
  with m have "cid moved = i" and "parent moved = (if p = ''root'' then None else Some p)"
    by (auto simp: move_target_def split: if_splits option.splits)
  with r show ?thesis
    by simp
qed

theorem move_indexes_moved_node_only_witness:
  "map_option es_calls (moveCategory 3 es_up 9 admin ''c'' ''a'' ex_tree)
     = Some [UpdateDocument ''c'' (MovedDoc (Some ''a'') 9)]"
proof -
  have "map_option (succeeded \<circ> response) (moveCategory 3 es_up 9 admin ''c'' ''a'' ex_tree)
        = Some True"
    by code_simp
  then obtain r where r: "moveCategory 3 es_up 9 admin ''c'' ''a'' ex_tree = Some r"
    and s: "succeeded (response r)"
    by auto
  from move_indexes_moved_node_only [OF r s] r show ?thesis
    by simp
qed

text \<open>Moving Biology to the root repairs the ancestors of Cells, and the only call of the
  index is the update of Biology.\<close>

theorem move_repairs_without_indexing_counterexample:
  "map ancestors ex_tree = [[], [''a''], [''a'', ''b'']]
   \<and> map_option (map ancestors \<circ> store) (moveCategory 3 es_up 9 admin ''b'' ''root'' ex_tree)
       = Some [[], [], [''b'']]
   \<and> map_option es_calls (moveCategory 3 es_up 9 admin ''b'' ''root'' ex_tree)
       = Some [UpdateDocument ''b'' (MovedDoc None 9)]"
  by code_simp

section \<open>The repair of the descendants\<close>

lemma links_ids: "map fst (links s) = map cid s"
  by (simp add: links_def comp_def)

lemma links_distinct: "links s' = links s \<Longrightarrow> distinct (map cid s') = distinct (map cid s)"
  by (metis links_ids)

lemma ranked_links: "ranked r s \<longleftrightarrow> (\<forall>(i, p) \<in> set (links s). \<forall>q. p = Some q \<longrightarrow> r q < r i)"
  by (auto simp: ranked_def links_def)

lemma ranked_cong: "links s' = links s \<Longrightarrow> ranked r s' = ranked r s"
  by (simp add: ranked_links)

lemma findById_links:
  "Category_findById s i = Some c \<Longrightarrow> (i, parent c) \<in> set (links s)"
  using findById_SomeD by (fastforce simp: links_def)

lemma links_findById:
  assumes "distinct (map cid s)" and "(i, q) \<in> set (links s)"
  shows "\<exists>c. Category_findById s i = Some c \<and> parent c = q"
proof -
  from assms(2) obtain c where "c \<in> set s" "cid c = i" "parent c = q"
    by (auto simp: links_def)
  then show ?thesis
    using findById_distinct [OF assms(1)] by blast
qed

lemma links_unique:
  assumes "distinct (map cid s)" and "(i, q) \<in> set (links s)" and "(i, q') \<in> set (links s)"
  shows "q = q'"
  using assms by (metis links_ids eq_key_imp_eq_value)

lemma save_findById:
  "Category_findById (Document_save s doc now) i =
     (if i = cid doc then map_option (\<lambda>d. doc\<lparr>updatedAt := now\<rparr>) (Category_findById s i)
      else Category_findById s i)"
proof -
  have "Category_findById (Document_save s doc now) i
        = map_option (\<lambda>d. if cid d = cid doc then doc\<lparr>updatedAt := now\<rparr> else d) (Category_findById s i)"
    unfolding Document_save_def by (intro findById_map) simp
  then show ?thesis
    using findById_SomeD [of s i] by (cases "Category_findById s i") auto
qed

lemma save_links:
  assumes "distinct (map cid s)" and "(cid doc, parent doc) \<in> set (links s)"
  shows "links (Document_save s doc now) = links s"
proof -
  have "\<And>d. d \<in> set s \<Longrightarrow> cid d = cid doc \<Longrightarrow> parent d = parent doc"
    using assms links_unique [OF assms(1)] by (fastforce simp: links_def)
  then show ?thesis
    by (auto simp: links_def Document_save_def)
qed

lemma links_repair:
  "distinct (map cid s) \<Longrightarrow> updateSubcategoryAncestors k now s pid pas = Some s' \<Longrightarrow> links s' = links s"
  and
  "distinct (map cid s) \<Longrightarrow> \<forall>sub\<in>set subs. (cid sub, parent sub) \<in> set (links s)
     \<Longrightarrow> for_subcategories k now subs pid pas s = Some s' \<Longrightarrow> links s' = links s"
proof (induction k now s pid pas and k now subs pid pas s arbitrary: s' and s'
       rule: updateSubcategoryAncestors_for_subcategories.induct)
  case (1 now s parentId parentAncestors)
  then show ?case by simp
next
  case (2 k now s parentId parentAncestors)
  have "\<forall>sub\<in>set (Category_find_parent s parentId). (cid sub, parent sub) \<in> set (links s)"
    by (auto simp: Category_find_parent_def links_def)
  with 2 show ?case by simp
next
  case (3 k now parentId parentAncestors s)
  then show ?case by simp
next
  case (4 k now subcategory rest parentId parentAncestors s)
  let ?sub = "subcategory\<lparr>ancestors := parentAncestors @ [parentId]\<rparr>"
  let ?s1 = "Document_save s ?sub now"
  from 4(5) obtain s2 where s2: "updateSubcategoryAncestors k now ?s1 (cid subcategory) (parentAncestors @ [parentId]) = Some s2"
    and rest: "for_subcategories k now rest parentId parentAncestors s2 = Some s'"
    by (auto split: option.splits)
  have l1: "links ?s1 = links s"
    using save_links [OF 4(3), of ?sub now] 4(4) by simp
  then have d1: "distinct (map cid ?s1)"
    using 4(3) links_distinct by blast
  have l2: "links s2 = links ?s1"
    using 4(1) [OF d1 s2] .
  have d2: "distinct (map cid s2)"
    using d1 l2 links_distinct by blast
  have "links s' = links s2"
    using 4(2) [OF s2 d2 _ rest] 4(4) l1 l2 by simp
  with l1 l2 show ?case by simp
qed

lemma find_parent_cond:
  "\<forall>sub\<in>set (Category_find_parent s pid). (cid sub, Some pid) \<in> set (links s) \<and> parent sub = Some pid"
  by (auto simp: Category_find_parent_def links_def)

lemma kids_find_parent: "cid ` set (Category_find_parent s pid) = kids s pid"
  by (auto simp: Category_find_parent_def links_def kids_def)

lemma ranked_lt:
  "ranked r s \<Longrightarrow> (i, Some q) \<in> set (links s) \<Longrightarrow> r q < r i"
  by (auto simp: ranked_links)

lemma frame_repair:
  "distinct (map cid s) \<Longrightarrow> ranked r s \<Longrightarrow> updateSubcategoryAncestors k now s pid pas = Some s'
     \<Longrightarrow> r i \<le> r pid \<Longrightarrow> Category_findById s' i = Category_findById s i"
  and
  "distinct (map cid s) \<Longrightarrow> ranked r s
     \<Longrightarrow> \<forall>sub\<in>set subs. (cid sub, Some pid) \<in> set (links s) \<and> parent sub = Some pid
     \<Longrightarrow> for_subcategories k now subs pid pas s = Some s'
     \<Longrightarrow> r i \<le> r pid \<Longrightarrow> Category_findById s' i = Category_findById s i"
proof (induction k now s pid pas and k now subs pid pas s arbitrary: s' and s'
       rule: updateSubcategoryAncestors_for_subcategories.induct)
  case (1 now s parentId parentAncestors)
  then show ?case by simp
next
  case (2 k now s parentId parentAncestors)
  then show ?case
    using find_parent_cond [of s parentId] by simp
next
  case (3 k now parentId parentAncestors s)
  then show ?case by simp
next
  case (4 k now subcategory rest parentId parentAncestors s)
  let ?sub = "subcategory\<lparr>ancestors := parentAncestors @ [parentId]\<rparr>"
  let ?s1 = "Document_save s ?sub now"
  from 4(6) obtain s2 where s2: "updateSubcategoryAncestors k now ?s1 (cid subcategory) (parentAncestors @ [parentId]) = Some s2"
    and rest: "for_subcategories k now rest parentId parentAncestors s2 = Some s'"
    by (auto split: option.splits)
  have sub: "(cid subcategory, Some parentId) \<in> set (links s)" "parent subcategory = Some parentId"
    using 4(5) by auto
  have lt: "r parentId < r (cid subcategory)"
    using ranked_lt [OF 4(4) sub(1)] .
  have l1: "links ?s1 = links s"
    using save_links [OF 4(3), of ?sub now] sub by simp
  have d1: "distinct (map cid ?s1)"
    using 4(3) l1 links_distinct by blast
  have r1: "ranked r ?s1"
    using 4(4) l1 ranked_cong by blast
  have l2: "links s2 = links ?s1"
    using links_repair(1) [OF d1 s2] .
  have d2: "distinct (map cid s2)"
    using d1 l2 links_distinct by blast
  have r2: "ranked r s2"
    using r1 l2 ranked_cong by blast
  have "Category_findById s' i = Category_findById s2 i"
    using 4(2) [OF s2 d2 r2 _ rest 4(7)] 4(5) l1 l2 by simp
  also have "\<dots> = Category_findById ?s1 i"
    using 4(1) [OF d1 r1 s2] 4(7) lt by simp
  also have "\<dots> = Category_findById s i"
    using 4(7) lt by (auto simp: save_findById)
  finally show ?case .
qed

lemma bad_after_save:
  assumes "(cid sub, Some pid) \<in> set (links s)" and "parent sub = Some pid"
    and "Category_findById s pid = Some pc" and "ancestors pc = pas" and "pid \<noteq> cid sub"
  shows "bad (Document_save s (sub\<lparr>ancestors := pas @ [pid]\<rparr>) now)
         \<subseteq> (bad s - {cid sub}) \<union> kids s (cid sub)"
proof
  let ?s1 = "Document_save s (sub\<lparr>ancestors := pas @ [pid]\<rparr>) now"
  fix i
  assume "i \<in> bad ?s1"
  then obtain c where c: "Category_findById ?s1 i = Some c" and nok: "\<not> ancestors_ok ?s1 c"
    by (auto simp: bad_def)
  have pid1: "Category_findById ?s1 pid = Some pc"
    using assms(3,5) by (simp add: save_findById)
  show "i \<in> (bad s - {cid sub}) \<union> kids s (cid sub)"
  proof (cases "i = cid sub")
    case True
    with c have "c = sub\<lparr>ancestors := pas @ [pid], updatedAt := now\<rparr>"
      by (auto simp: save_findById)
    then have "ancestors_ok ?s1 c"
      using assms(2,4) pid1 by (simp add: ancestors_ok_def)
    with nok show ?thesis by simp
  next
    case False
    with c have c0: "Category_findById s i = Some c"
      by (simp add: save_findById)
    show ?thesis
    proof (cases "parent c = Some (cid sub)")
      case True
      then show ?thesis
        using findById_links [OF c0] by (simp add: kids_def)
    next
      case False
      then have "ancestors_ok ?s1 c = ancestors_ok s c"
        by (auto simp: ancestors_ok_def save_findById split: option.splits)
      with nok c0 \<open>i \<noteq> cid sub\<close> show ?thesis
        by (auto simp: bad_def)
    qed
  qed
qed

lemma kids_cong: "links s' = links s \<Longrightarrow> kids s' p = kids s p"
  by (simp add: kids_def)

lemma bad_repair:
  "distinct (map cid s) \<Longrightarrow> ranked r s
     \<Longrightarrow> \<exists>pc. Category_findById s pid = Some pc \<and> ancestors pc = pas
     \<Longrightarrow> updateSubcategoryAncestors k now s pid pas = Some s'
     \<Longrightarrow> bad s' \<subseteq> bad s - kids s pid"
  and
  "distinct (map cid s) \<Longrightarrow> ranked r s
     \<Longrightarrow> \<exists>pc. Category_findById s pid = Some pc \<and> ancestors pc = pas
     \<Longrightarrow> \<forall>sub\<in>set subs. (cid sub, Some pid) \<in> set (links s) \<and> parent sub = Some pid
     \<Longrightarrow> for_subcategories k now subs pid pas s = Some s'
     \<Longrightarrow> bad s' \<subseteq> bad s - cid ` set subs"
proof (induction k now s pid pas and k now subs pid pas s arbitrary: s' and s'
       rule: updateSubcategoryAncestors_for_subcategories.induct)
  case (1 now s parentId parentAncestors)
  then show ?case by simp
next
  case (2 k now s parentId parentAncestors)
  then show ?case
    using find_parent_cond [of s parentId] kids_find_parent [of s parentId] by simp
next
  case (3 k now parentId parentAncestors s)
  then show ?case by simp
next
  case (4 k now subcategory rest parentId parentAncestors s)
  let ?sub = "subcategory\<lparr>ancestors := parentAncestors @ [parentId]\<rparr>"
  let ?s1 = "Document_save s ?sub now"
  from 4(7) obtain s2 where s2: "updateSubcategoryAncestors k now ?s1 (cid subcategory) (parentAncestors @ [parentId]) = Some s2"
    and rest: "for_subcategories k now rest parentId parentAncestors s2 = Some s'"
    by (auto split: option.splits)
  from 4(5) obtain pc where pc: "Category_findById s parentId = Some pc" "ancestors pc = parentAncestors"
    by blast
  have sub: "(cid subcategory, Some parentId) \<in> set (links s)" "parent subcategory = Some parentId"
    using 4(6) by auto
  have lt: "r parentId < r (cid subcategory)"
    using ranked_lt [OF 4(4) sub(1)] .
  have l1: "links ?s1 = links s"
    using save_links [OF 4(3), of ?sub now] sub by simp
  have d1: "distinct (map cid ?s1)"
    using 4(3) l1 links_distinct by blast
  have r1: "ranked r ?s1"
    using 4(4) l1 ranked_cong by blast
  have l2: "links s2 = links ?s1"
    using links_repair(1) [OF d1 s2] .
  have d2: "distinct (map cid s2)"
    using d1 l2 links_distinct by blast
  have r2: "ranked r s2"
    using r1 l2 ranked_cong by blast
  have b1: "bad ?s1 \<subseteq> (bad s - {cid subcategory}) \<union> kids s (cid subcategory)"
    using bad_after_save [OF sub pc] lt by auto
  obtain c0 where "Category_findById s (cid subcategory) = Some c0"
    using links_findById [OF 4(3) sub(1)] by blast
  then have p1: "\<exists>pc. Category_findById ?s1 (cid subcategory) = Some pc
                  \<and> ancestors pc = parentAncestors @ [parentId]"
    by (simp add: save_findById)
  have b2: "bad s2 \<subseteq> bad ?s1 - kids ?s1 (cid subcategory)"
    using 4(1) [OF d1 r1 p1 s2] .
  have "Category_findById s2 parentId = Category_findById ?s1 parentId"
    using frame_repair(1) [OF d1 r1 s2, of parentId] lt by simp
  also have "\<dots> = Category_findById s parentId"
    using lt by (auto simp: save_findById)
  finally have p2: "\<exists>pc. Category_findById s2 parentId = Some pc \<and> ancestors pc = parentAncestors"
    using pc by simp
  have "bad s' \<subseteq> bad s2 - cid ` set rest"
    using 4(2) [OF s2 d2 r2 p2 _ rest] 4(6) l1 l2 by simp
  with b1 b2 kids_cong [OF l1] show ?case
    by auto
qed

lemma repair_returns:
  "distinct (map cid s) \<Longrightarrow> ranked r s \<Longrightarrow> card {i \<in> set (map cid s). r pid < r i} < k
     \<Longrightarrow> updateSubcategoryAncestors k now s pid pas \<noteq> None"
  and
  "distinct (map cid s) \<Longrightarrow> ranked r s
     \<Longrightarrow> \<forall>sub\<in>set subs. (cid sub, Some pid) \<in> set (links s) \<and> parent sub = Some pid
     \<Longrightarrow> card {i \<in> set (map cid s). r pid < r i} \<le> k
     \<Longrightarrow> for_subcategories k now subs pid pas s \<noteq> None"
proof (induction k now s pid pas and k now subs pid pas s
       rule: updateSubcategoryAncestors_for_subcategories.induct)
  case (1 now s parentId parentAncestors)
  then show ?case by simp
next
  case (2 k now s parentId parentAncestors)
  then show ?case
    using find_parent_cond [of s parentId] by simp
next
  case (3 k now parentId parentAncestors s)
  then show ?case by simp
next
  case (4 k now subcategory rest parentId parentAncestors s)
  let ?sub = "subcategory\<lparr>ancestors := parentAncestors @ [parentId]\<rparr>"
  let ?s1 = "Document_save s ?sub now"
  have sub: "(cid subcategory, Some parentId) \<in> set (links s)" "parent subcategory = Some parentId"
    using 4(5) by auto
  have lt: "r parentId < r (cid subcategory)"
    using ranked_lt [OF 4(4) sub(1)] .
  have l1: "links ?s1 = links s"
    using save_links [OF 4(3), of ?sub now] sub by simp
  have d1: "distinct (map cid ?s1)"
    using 4(3) l1 links_distinct by blast
  have r1: "ranked r ?s1"
    using 4(4) l1 ranked_cong by blast
  have ids1: "map cid ?s1 = map cid s"
    using l1 by (metis links_ids)
  have mem: "cid subcategory \<in> set (map cid s)"
    using sub(1) by (force simp: links_def)
  have "{i \<in> set (map cid s). r (cid subcategory) < r i} \<subset> {i \<in> set (map cid s). r parentId < r i}"
    using lt mem by auto
  then have "card {i \<in> set (map cid s). r (cid subcategory) < r i} < card {i \<in> set (map cid s). r parentId < r i}"
    by (intro psubset_card_mono) auto
  with 4(6) have "card {i \<in> set (map cid ?s1). r (cid subcategory) < r i} < k"
    by (simp add: ids1)
  from 4(1) [OF d1 r1 this]
  obtain s2 where s2: "updateSubcategoryAncestors k now ?s1 (cid subcategory) (parentAncestors @ [parentId]) = Some s2"
    by auto
  have l2: "links s2 = links ?s1"
    using links_repair(1) [OF d1 s2] .
  have d2: "distinct (map cid s2)"
    using d1 l2 links_distinct by blast
  have r2: "ranked r s2"
    using r1 l2 ranked_cong by blast
  have ids2: "map cid s2 = map cid s"
    using l1 l2 by (metis links_ids)
  have "for_subcategories k now rest parentId parentAncestors s2 \<noteq> None"
    using 4(2) [OF s2 d2 r2] 4(5,6) l1 l2 ids2 by simp
  with s2 show ?case by simp
qed

section \<open>The ancestor invariant is kept\<close>

lemma save_ids: "map cid (Document_save s doc now) = map cid s"
  by (simp add: Document_save_def)

lemma move_rank_ranked:
  assumes inv: "tree_inv s" and moved: "cid moved = i"
    and par: "parent moved = None \<or> (\<exists>p np. parent moved = Some p \<and> p \<noteq> i
                \<and> Category_findById s p = Some np \<and> i \<notin> set (ancestors np)
                \<and> length (ancestors np) < N)"
  shows "ranked (move_rank s i N) (Document_save s moved now)"
  unfolding ranked_def
proof (intro ballI allI impI)
  fix d1 q
  assume d1: "d1 \<in> set (Document_save s moved now)" and q: "parent d1 = Some q"
  from d1 obtain d where d: "d \<in> set s" and d1_eq: "d1 = (if cid d = i then moved\<lparr>updatedAt := now\<rparr> else d)"
    using moved by (auto simp: Document_save_def)
  show "move_rank s i N q < move_rank s i N (cid d1)"
  proof (cases "cid d = i")
    case True
    with d1_eq q par moved obtain np where "q \<noteq> i" "Category_findById s q = Some np"
      "i \<notin> set (ancestors np)" "length (ancestors np) < N" "cid d1 = i"
      by auto
    then show ?thesis
      by (simp add: move_rank_def stored_ancestors_def)
  next
    case False
    with d1_eq have [simp]: "d1 = d" by simp
    have "ancestors_ok s d"
      using inv d tree_inv_okD by blast
    with q obtain pc where pc: "Category_findById s q = Some pc" "ancestors d = ancestors pc @ [q]"
      by (auto simp: ancestors_ok_def split: option.splits)
    have "Category_findById s (cid d) = Some d"
      using inv d findById_distinct by (simp add: tree_inv_def)
    with pc False show ?thesis
      by (auto simp: move_rank_def stored_ancestors_def)
  qed
qed

lemma move_target_InrD:
  assumes "move_target s c i p = Inr moved"
  shows "cid moved = cid c \<and>
         ((parent moved = None \<and> ancestors moved = []) \<or>
          (\<exists>np. parent moved = Some p \<and> p \<noteq> i \<and> Category_findById s p = Some np
                \<and> i \<notin> set (ancestors np) \<and> ancestors moved = ancestors np @ [p]))"
  using assms by (auto simp: move_target_def split: if_splits option.splits)

lemma tree_invI:
  assumes "distinct (map cid s)" and "bad s = {}"
  shows "tree_inv s"
proof -
  have "ancestors_ok s d" if "d \<in> set s" for d
    using findById_distinct [OF assms(1) that] assms(2) by (auto simp: bad_def)
  with assms(1) show ?thesis
    by (simp add: tree_inv_def list_all_iff)
qed

lemma move_preserves_tree_inv:
  assumes inv: "tree_inv s" and mv: "moveCategory fuel es now u i p s = Some r"
    and ok: "succeeded (response r)"
  shows "tree_inv (store r)"
proof -
  from moveCategory_succeededD [OF mv ok] obtain c moved where
    c: "Category_findById s i = Some c" and m: "move_target s c i p = Inr moved"
    and rep: "updateSubcategoryAncestors fuel now (Document_save s moved now) i (ancestors moved)
              = Some (store r)"
    by blast
  let ?s1 = "Document_save s moved now"
  have ci: "cid c = i"
    using c findById_SomeD by blast
  from move_target_InrD [OF m] ci have mi: "cid moved = i"
    and par: "(parent moved = None \<and> ancestors moved = []) \<or>
          (\<exists>np. parent moved = Some p \<and> p \<noteq> i \<and> Category_findById s p = Some np
                \<and> i \<notin> set (ancestors np) \<and> ancestors moved = ancestors np @ [p])"
    by auto
  have d: "distinct (map cid s)"
    using inv by (simp add: tree_inv_def)
  then have d1: "distinct (map cid ?s1)"
    by (simp add: save_ids)
  obtain N where N: "parent moved = None \<or> (\<exists>p np. parent moved = Some p \<and> p \<noteq> i
                \<and> Category_findById s p = Some np \<and> i \<notin> set (ancestors np)
                \<and> length (ancestors np) < N)"
    using par by (metis lessI)
  have r1: "ranked (move_rank s i N) ?s1"
    using move_rank_ranked [OF inv mi N] .
  have f1: "Category_findById ?s1 i = Some (moved\<lparr>updatedAt := now\<rparr>)"
    using c mi by (simp add: save_findById)
  then have p1: "\<exists>pc. Category_findById ?s1 i = Some pc \<and> ancestors pc = ancestors moved"
    by simp
  have b1: "bad ?s1 \<subseteq> kids ?s1 i"
  proof
    fix j
    assume "j \<in> bad ?s1"
    then obtain e where e: "Category_findById ?s1 j = Some e" and nok: "\<not> ancestors_ok ?s1 e"
      by (auto simp: bad_def)
    show "j \<in> kids ?s1 i"
    proof (cases "j = i")
      case True
      with e f1 have "e = moved\<lparr>updatedAt := now\<rparr>" by simp
      then have "ancestors_ok ?s1 e"
        using par mi by (auto simp: ancestors_ok_def save_findById)
      with nok show ?thesis by simp
    next
      case False
      with e mi have e0: "Category_findById s j = Some e"
        by (simp add: save_findById)
      then have oke: "ancestors_ok s e"
        using inv findById_SomeD tree_inv_okD by blast
      show ?thesis
      proof (cases "parent e = Some i")
        case True
        then show ?thesis
          using findById_links [OF e] by (simp add: kids_def)
      next
        case False
        then have "ancestors_ok ?s1 e = ancestors_ok s e"
          using mi by (auto simp: ancestors_ok_def save_findById split: option.splits)
        with oke nok show ?thesis by simp
      qed
    qed
  qed
  have "bad (store r) \<subseteq> bad ?s1 - kids ?s1 i"
    using bad_repair(1) [OF d1 r1 p1 rep] .
  with b1 have "bad (store r) = {}"
    by auto
  moreover have "distinct (map cid (store r))"
    using links_repair(1) [OF d1 rep] d1 links_distinct by blast
  ultimately show ?thesis
    by (rule tree_invI [rotated])
qed

lemma findById_append:
  "Category_findById (s @ t) i =
     (case Category_findById s i of None \<Rightarrow> Category_findById t i | Some c \<Rightarrow> Some c)"
  by (induction s) (auto simp: Category_findById_def)

lemma create_succeededD:
  assumes "succeeded (response (createCategory es now newId u b s))"
  shows "\<exists>nm d. p_name b = Some nm \<and> create_data s u nm b = Inr d
           \<and> Category_findById s newId = None
           \<and> createCategory es now newId u b s
             = \<lparr>response = Status 201 (Data (new_document newId now d)),
                store = s @ [new_document newId now d],
                es_calls = [IndexDocument newId (created_doc (new_document newId now d))],
                logs = try_es es (IndexDocument newId (created_doc (new_document newId now d)))
                         ''Failed to index category in Elasticsearch: ''\<rparr>"
proof -
  from assms obtain nm where nm: "p_name b = Some nm"
    and nd: "Category_findOne_name s (trim nm) = None"
    by (auto simp: createCategory_def server_error_def reply_def succeeded_def DuplicateName_def
        split: option.splits if_splits)
  have "\<And>x. create_data s u nm b = Inl x \<Longrightarrow> \<not> succeeded x"
    by (auto simp: create_data_def succeeded_def Let_def split: field.splits if_splits option.splits)
  with assms nm nd obtain d where d: "create_data s u nm b = Inr d"
    by (cases "create_data s u nm b") (auto simp: createCategory_def reply_def)
  from assms nm nd d obtain doc s' where cr: "Category_create s newId now d = Inr (doc, s')"
    by (cases "Category_create s newId now d")
       (auto simp: createCategory_def server_error_def succeeded_def)
  then have "doc = new_document newId now d" "s' = s @ [doc]" "Category_findById s newId = None"
    by (auto simp: Category_create_def Let_def split: if_splits)
  with nm nd d cr show ?thesis
    by (simp add: createCategory_def new_document_def)
qed

lemma create_preserves_tree_inv:
  assumes inv: "tree_inv s" and ok: "succeeded (response (createCategory es now newId u b s))"
  shows "tree_inv (store (createCategory es now newId u b s))"
proof -
  from create_succeededD [OF ok] obtain nm d where d: "create_data s u nm b = Inr d"
    and fresh: "Category_findById s newId = None"
    and st: "store (createCategory es now newId u b s) = s @ [new_document newId now d]"
    by auto
  let ?doc = "new_document newId now d"
  have old: "ancestors_ok (s @ [?doc]) e" if "e \<in> set s" for e
  proof -
    have "ancestors_ok s e"
      using inv that tree_inv_okD by blast
    then show ?thesis
      by (auto simp: ancestors_ok_def findById_append split: option.splits)
  qed
  have "(d_parent d = None \<and> d_ancestors d = []) \<or>
        (\<exists>q pc. d_parent d = Some q \<and> Category_findById s q = Some pc \<and> d_ancestors d = ancestors pc @ [q])"
    using d by (auto simp: create_data_def Let_def split: field.splits if_splits option.splits)
  then have new: "ancestors_ok (s @ [?doc]) ?doc"
    by (auto simp: ancestors_ok_def new_document_def findById_append)
  have "distinct (map cid (s @ [?doc]))"
    using inv fresh by (auto simp: tree_inv_def findById_None_iff new_document_def)
  with old new show ?thesis
    by (simp add: st tree_inv_def list_all_iff)
qed

lemma build_preserves_tree_inv:
  "tree_inv s \<Longrightarrow> build fuel es ops s = Some s' \<Longrightarrow> tree_inv s'"
proof (induction ops arbitrary: s)
  case Nil
  then show ?case by simp
next
  case (Cons op ops)
  show ?case
  proof (cases op)
    case (Create now newId u b)
    with Cons.prems(2) have ok: "succeeded (response (createCategory es now newId u b s))"
      and rest: "build fuel es ops (store (createCategory es now newId u b s)) = Some s'"
      by (auto split: if_splits)
    from Cons.IH [OF create_preserves_tree_inv [OF Cons.prems(1) ok] rest] show ?thesis .
  next
    case (Move now u i p)
    with Cons.prems(2) obtain r where mv: "moveCategory fuel es now u i p s = Some r"
      and ok: "succeeded (response r)" and rest: "build fuel es ops (store r) = Some s'"
      by (auto split: option.splits if_splits)
    from Cons.IH [OF move_preserves_tree_inv [OF Cons.prems(1) mv ok] rest] show ?thesis .
  qed
qed

lemma tree_inv_parent_chain:
  assumes "tree_inv s"
  shows "c \<in> set s \<Longrightarrow> parent_chain s (parent c) (ancestors c)"
proof (induction "length (ancestors c)" arbitrary: c rule: less_induct)
  case less
  have okc: "ancestors_ok s c"
    using assms less.prems tree_inv_okD by blast
  show ?case
  proof (cases "parent c")
    case None
    with okc show ?thesis
      by (simp add: ancestors_ok_def parent_chain.root)
  next
    case (Some q)
    with okc obtain pc where pc: "Category_findById s q = Some pc" "ancestors c = ancestors pc @ [q]"
      by (auto simp: ancestors_ok_def split: option.splits)
    then have "parent_chain s (parent pc) (ancestors pc)"
      using less.hyps [of pc] findById_SomeD by fastforce
    with pc Some show ?thesis
      by (simp add: parent_chain.link)
  qed
qed

lemma parent_chain_unique:
  "parent_chain s p as \<Longrightarrow> parent_chain s p bs \<Longrightarrow> as = bs"
proof (induction arbitrary: bs rule: parent_chain.induct)
  case root
  then show ?case
    by (auto elim: parent_chain.cases)
next
  case (link p c as)
  from link.prems link.hyps(1) obtain bs' where "bs = bs' @ [p]" "parent_chain s (parent c) bs'"
    by (auto elim: parent_chain.cases)
  with link.IH show ?case by simp
qed

lemma tree_inv_empty: "tree_inv []"
  by (simp add: tree_inv_def)

text \<open>
  C1. In every store built from the empty store by a finite sequence of category creates and
  moves, each of which succeeded, the \<^verbatim>\<open>ancestors\<close> of every node are the chain of
  ids that the \<^verbatim>\<open>parent\<close> links give from the root down to the node's parent (the
  empty chain for a root), and no other list is that chain.
\<close>

theorem ancestors_equal_parent_chain:
  assumes "build fuel es ops [] = Some s" and "c \<in> set s"
  shows "parent_chain s (parent c) (ancestors c)
         \<and> (\<forall>as. parent_chain s (parent c) as \<longrightarrow> as = ancestors c)"
proof -
  have "tree_inv s"
    using build_preserves_tree_inv [OF tree_inv_empty assms(1)] .
  then have "parent_chain s (parent c) (ancestors c)"
    using assms(2) tree_inv_parent_chain by blast
  then show ?thesis
    using parent_chain_unique by blast
qed

text \<open>In a tree that satisfies the invariant a move returns, whenever the depth allowed to
  the repair exceeds the number of nodes.\<close>

lemma move_returns:
  assumes inv: "tree_inv s" and fuel: "length s < fuel"
  shows "moveCategory fuel es now u i p s \<noteq> None"
proof (cases "role u = ''admin''")
  case False
  then show ?thesis by (simp add: moveCategory_def)
next
  case True
  show ?thesis
  proof (cases "Category_findById s i")
    case None
    with True show ?thesis by (simp add: moveCategory_def)
  next
    case (Some c)
    show ?thesis
    proof (cases "move_target s c i p")
      case (Inl x)
      with True Some show ?thesis by (simp add: moveCategory_def)
    next
      case (Inr moved)
      let ?s1 = "Document_save s moved now"
      have ci: "cid c = i"
        using Some findById_SomeD by blast
      from move_target_InrD [OF Inr] ci have mi: "cid moved = i"
        and par: "(parent moved = None \<and> ancestors moved = []) \<or>
          (\<exists>np. parent moved = Some p \<and> p \<noteq> i \<and> Category_findById s p = Some np
                \<and> i \<notin> set (ancestors np) \<and> ancestors moved = ancestors np @ [p])"
        by auto
      obtain N where N: "parent moved = None \<or> (\<exists>p np. parent moved = Some p \<and> p \<noteq> i
                \<and> Category_findById s p = Some np \<and> i \<notin> set (ancestors np)
                \<and> length (ancestors np) < N)"
        using par by (metis lessI)
      have r1: "ranked (move_rank s i N) ?s1"
        using move_rank_ranked [OF inv mi N] .
      have d1: "distinct (map cid ?s1)"
        using inv by (simp add: save_ids tree_inv_def)
      have "card {j \<in> set (map cid ?s1). move_rank s i N i < move_rank s i N j}
            \<le> card (set (map cid ?s1))"
        by (intro card_mono) auto
      also have "\<dots> \<le> length s"
        by (metis card_length length_map save_ids)
      finally have "card {j \<in> set (map cid ?s1). move_rank s i N i < move_rank s i N j} < fuel"
        using fuel by simp
      from repair_returns(1) [OF d1 r1 this, of now "ancestors moved"]
      obtain s' where "updateSubcategoryAncestors fuel now ?s1 i (ancestors moved) = Some s'"
        by auto
      then show ?thesis
        using True Some Inr by (simp add: moveCategory_def)
    qed
  qed
qed

theorem ancestors_equal_parent_chain_witness:
  "map_option (map ancestors) (build 3 es_down ex_ops []) = Some [[], [], [''b'']]
   \<and> (case build 3 es_down ex_ops [] of
        None \<Rightarrow> False
      | Some s \<Rightarrow> list_all (\<lambda>c. parent_chain s (parent c) (ancestors c)) s)"
proof -
  have v: "map_option (map ancestors) (build 3 es_down ex_ops []) = Some [[], [], [''b'']]"
    by code_simp
  then obtain s where s: "build 3 es_down ex_ops [] = Some s"
    by auto
  have "list_all (\<lambda>c. parent_chain s (parent c) (ancestors c)) s"
    using ancestors_equal_parent_chain [OF s] by (simp add: list_all_iff)
  with v s show ?thesis
    by simp
qed

section \<open>Repairing a tree that is already correct\<close>











section \<open>Failures of the index and of the cache\<close>














end
